theory Spec2Isabelle
  imports Main "HOL-Library.List_Lexorder"
begin

section \<open>Python values and text\<close>

text \<open>
  A Python \<open>str\<close> is a sequence of Unicode code points; it is modelled as the list of
  those code points. \<open>lit\<close> turns an ASCII literal of the source into that form.
\<close>

type_synonym pystr = "nat list"

definition lit :: "string \<Rightarrow> pystr" where
  "lit s = map of_char s"

text \<open>
  The values a cell of the table read by \<open>pd.read_csv\<close> can hold, and \<open>None\<close>:
  text, the float NaN of an empty cell, an integer, a boolean, and any other float.
  Formatting a float other than NaN is floating-point work outside this model, so
  \<open>PFloat\<close> carries the text that \<open>str\<close> renders for it.
\<close>

datatype pyval =
    PStr pystr
  | PNaN
  | PNone
  | PInt int
  | PBool bool
  | PFloat pystr

fun dec_digits :: "nat \<Rightarrow> pystr" where
  "dec_digits n = (if n < 10 then [48 + n] else dec_digits (n div 10) @ [48 + n mod 10])"

declare dec_digits.simps [simp del]

text \<open>The builtin \<open>str(x)\<close>.\<close>

fun py_str :: "pyval \<Rightarrow> pystr" where
  "py_str (PStr s) = s"
| "py_str PNaN = lit ''nan''"
| "py_str PNone = lit ''None''"
| "py_str (PInt i) = (if i < 0 then lit ''-'' @ dec_digits (nat (- i)) else dec_digits (nat i))"
| "py_str (PBool b) = (if b then lit ''True'' else lit ''False'')"
| "py_str (PFloat s) = s"

text \<open>\<open>a or b\<close> on two strings: the empty string is the only falsy one.\<close>

definition py_or :: "pystr \<Rightarrow> pystr \<Rightarrow> pystr" where
  "py_or a b = (if a = [] then b else a)"

subsection \<open>\<open>str.lower\<close>\<close>

text \<open>
  \<open>str.lower\<close> maps the ASCII letters \<open>A\<close>..\<open>Z\<close> to \<open>a\<close>..\<open>z\<close> and leaves every other
  ASCII code point alone. A code point from 128 on is replaced by what Unicode's case
  mapping gives for it, which may be several code points and, for the Greek capital
  sigma, depends on its neighbours. That mapping is a table of the Python runtime, not of
  this repository: it is the parameter \<open>ul\<close>, which receives the whole string and the
  position of the code point. Every result below holds for every such table.
\<close>

type_synonym unicode_lower = "pystr \<Rightarrow> nat \<Rightarrow> pystr"

definition ascii_lower :: "nat \<Rightarrow> nat" where
  "ascii_lower c = (if 65 \<le> c \<and> c \<le> 90 then c + 32 else c)"

fun lower_from :: "unicode_lower \<Rightarrow> pystr \<Rightarrow> nat \<Rightarrow> pystr \<Rightarrow> pystr" where
  "lower_from ul s i [] = []"
| "lower_from ul s i (c # cs) =
     (if c < 128 then [ascii_lower c] else ul s i) @ lower_from ul s (Suc i) cs"

definition py_lower :: "unicode_lower \<Rightarrow> pystr \<Rightarrow> pystr" where
  "py_lower ul s = lower_from ul s 0 s"

text \<open>
  One concrete table, for evaluating the functions on concrete inputs: the capital
  letters of the Latin-1 supplement (U+00C0..U+00DE without the multiplication sign)
  move down by 32, every other code point stays.
\<close>

definition latin1_lower :: unicode_lower where
  "latin1_lower s i =
     (let c = s ! i in if 192 \<le> c \<and> c \<le> 222 \<and> c \<noteq> 215 then [c + 32] else [c])"

subsection \<open>\<open>str.strip\<close>\<close>

text \<open>The code points for which \<open>str.isspace\<close> holds; \<open>strip()\<close> removes them at both ends.\<close>

definition is_space :: "nat \<Rightarrow> bool" where
  "is_space c \<longleftrightarrow>
     (9 \<le> c \<and> c \<le> 13) \<or> (28 \<le> c \<and> c \<le> 32) \<or> c = 133 \<or> c = 160 \<or> c = 5760 \<or>
     (8192 \<le> c \<and> c \<le> 8202) \<or> c = 8232 \<or> c = 8233 \<or> c = 8239 \<or> c = 8287 \<or> c = 12288"

definition py_strip :: "pystr \<Rightarrow> pystr" where
  "py_strip s = rev (dropWhile is_space (rev (dropWhile is_space s)))"

subsection \<open>The substring test \<open>pat in t\<close>\<close>

fun startswith :: "pystr \<Rightarrow> pystr \<Rightarrow> bool" where
  "startswith [] t = True"
| "startswith (p # ps) [] = False"
| "startswith (p # ps) (c # cs) = (p = c \<and> startswith ps cs)"

fun py_in :: "pystr \<Rightarrow> pystr \<Rightarrow> bool" where
  "py_in pat [] = (pat = [])"
| "py_in pat (c # cs) = (startswith pat (c # cs) \<or> py_in pat cs)"

section \<open>The classifier \<open>to_status\<close>\<close>

text \<open>
  The third element of the tuple in the source is the five code points
  \<open>n\<close>, U+201A, U+00C5, U+00D1, \<open>a\<close>: a fraction slash between \<open>n\<close> and \<open>a\<close> whose
  UTF-8 bytes were once read in another encoding.
\<close>

definition slash_artifact :: pystr where
  "slash_artifact = [110, 8218, 197, 209, 97]"

definition to_status :: "unicode_lower \<Rightarrow> pyval \<Rightarrow> pystr" where
  "to_status ul text =
     (let t = py_lower ul (py_or (py_str text) (lit ''''))
      in if t \<in> set [lit ''na'', lit ''n/a'', slash_artifact] then lit ''na''
         else if py_in (lit ''need to request'') t then lit ''no''
         else if py_in (lit ''primarily'') t \<or> py_in (lit ''missing'') t \<or>
                 py_in (lit ''lacks'') t \<or> py_in (lit ''for users who can read'') t
           then lit ''partial''
         else lit ''yes'')"

text \<open>
  This predicate is not taken from the source. It names the texts that read as \<open>n/a\<close>
  with a mis-encoded slash: an \<open>n\<close>, then one or more code points outside ASCII, then an
  \<open>a\<close>. The literal of the tuple is one of them, and so is \<open>n\<close>, U+2044, \<open>a\<close>.
\<close>

definition slash_artifact_like :: "pystr \<Rightarrow> bool" where
  "slash_artifact_like t =
     (case t of
        [] \<Rightarrow> False
      | c # rest \<Rightarrow> c = 110 \<and> rest \<noteq> [] \<and> last rest = 97 \<and> butlast rest \<noteq> [] \<and>
          list_all (\<lambda>m. 128 \<le> m) (butlast rest))"

section \<open>Tables\<close>

text \<open>
  A pandas \<open>DataFrame\<close> as \<open>read_csv\<close> returns it: the columns in their order, each a
  name and its cells. In a well-formed table the names are distinct and every column
  has one cell per row.
\<close>

type_synonym column = "pystr \<times> pyval list"
type_synonym dataframe = "column list"

text \<open>
  The exceptions the pandas calls of the module can raise. The source defines no
  exception class of its own.
\<close>

datatype error = KeyError pystr | AttributeError | ValueError

definition columns :: "dataframe \<Rightarrow> pystr list" where
  "columns df = map fst df"

text \<open>\<open>name in df.columns\<close>\<close>

definition has_col :: "pystr \<Rightarrow> dataframe \<Rightarrow> bool" where
  "has_col name df \<longleftrightarrow> name \<in> set (columns df)"

definition nrows :: "dataframe \<Rightarrow> nat" where
  "nrows df = (case df of [] \<Rightarrow> 0 | c # _ \<Rightarrow> length (snd c))"

definition wf_df :: "dataframe \<Rightarrow> bool" where
  "wf_df df \<longleftrightarrow> distinct (columns df) \<and> (\<forall>c \<in> set df. length (snd c) = nrows df)"

text \<open>\<open>df[name]\<close>: the column, or \<open>KeyError\<close> when there is none of that name.\<close>

definition getitem :: "dataframe \<Rightarrow> pystr \<Rightarrow> error + pyval list" where
  "getitem df name = (case map_of df name of None \<Rightarrow> Inl (KeyError name) | Some cells \<Rightarrow> Inr cells)"

text \<open>
  \<open>obj[key] = value\<close> on a table or a \<open>dict\<close>: an existing key keeps its place and gets
  the new value, a new key is added at the end.
\<close>

fun setitem :: "('k \<times> 'v) list \<Rightarrow> 'k \<Rightarrow> 'v \<Rightarrow> ('k \<times> 'v) list" where
  "setitem [] name cells = [(name, cells)]"
| "setitem (c # df) name cells =
     (if fst c = name then (name, cells) # df else c # setitem df name cells)"

definition is_text :: "pyval \<Rightarrow> bool" where
  "is_text v = (case v of PStr _ \<Rightarrow> True | _ \<Rightarrow> False)"

text \<open>\<open>pd.isna\<close>\<close>

definition is_null :: "pyval \<Rightarrow> bool" where
  "is_null v \<longleftrightarrow> v = PNaN \<or> v = PNone"

text \<open>
  The \<open>.str\<close> accessor of a column. pandas refuses it with
  \<open>AttributeError: Can only use .str accessor with string values\<close> on a column of
  numbers or booleans, which is what \<open>read_csv\<close> makes of a column without any text
  (a column of empty cells is a column of float NaN). A column with no rows is accepted.
  A method applied through the accessor maps the text cells, leaves a null cell as it
  is and turns any other cell into NaN.
\<close>

definition str_accessor_ok :: "pyval list \<Rightarrow> bool" where
  "str_accessor_ok cells \<longleftrightarrow> cells = [] \<or> (\<exists>v \<in> set cells. is_text v)"

definition str_apply :: "(pystr \<Rightarrow> pystr) \<Rightarrow> pyval \<Rightarrow> pyval" where
  "str_apply f v = (case v of PStr s \<Rightarrow> PStr (f s) | _ \<Rightarrow> if is_null v then v else PNaN)"

definition str_method :: "(pystr \<Rightarrow> pystr) \<Rightarrow> pyval list \<Rightarrow> error + pyval list" where
  "str_method f cells =
     (if str_accessor_ok cells then Inr (map (str_apply f) cells) else Inl AttributeError)"

text \<open>
  \<open>df.melt(id_vars=[id_var], var_name=var_name, value_name=value_name)\<close>. pandas (2.0
  and later) first refuses a \<open>value_name\<close> that is already a column
  (\<open>ValueError: value_name (...) cannot match an element in the DataFrame columns\<close>),
  then a missing identifier column (\<open>KeyError\<close>). The result has three columns and one
  row for every row of the input and every other column, column by column: the
  identifier column repeated once per value column, each value column's name repeated
  once per row, and the cells of the value columns one column after the other.
\<close>

definition melt :: "dataframe \<Rightarrow> pystr \<Rightarrow> pystr \<Rightarrow> pystr \<Rightarrow> error + dataframe" where
  "melt df id_var var_name value_name =
     (if has_col value_name df then Inl ValueError
      else case getitem df id_var of
        Inl e \<Rightarrow> Inl e
      | Inr ids \<Rightarrow>
          let vals = filter (\<lambda>c. fst c \<noteq> id_var) df; K = length vals; N = nrows df
          in Inr [(id_var, concat (replicate K ids)),
                  (var_name, concat (map (\<lambda>c. replicate N (PStr (fst c))) vals)),
                  (value_name, concat (map snd vals))])"

text \<open>
  The module-level code between \<open>read_csv\<close> and the layout (lines 10 to 26 of the
  source), as a function of the table read: with both a \<open>Status\<close> and a \<open>Competitor\<close>
  column the \<open>Status\<close> column is lower-cased and stripped in place; otherwise the table
  is melted and a \<open>Status\<close> column is computed from the \<open>Notes\<close> with \<open>to_status\<close>.
  \<open>Series.map\<close> passes every cell, NaN included, to the function.
\<close>

definition load_dataset :: "unicode_lower \<Rightarrow> dataframe \<Rightarrow> error + dataframe" where
  "load_dataset ul df =
     (if has_col (lit ''Status'') df \<and> has_col (lit ''Competitor'') df then
        (case getitem df (lit ''Status'') of
           Inl e \<Rightarrow> Inl e
         | Inr status \<Rightarrow>
        (case str_method (py_lower ul) status of
           Inl e \<Rightarrow> Inl e
         | Inr lowered \<Rightarrow>
        (case str_method py_strip lowered of
           Inl e \<Rightarrow> Inl e
         | Inr stripped \<Rightarrow> Inr (setitem df (lit ''Status'') stripped))))
      else
        (case melt df (lit ''Feature'') (lit ''Competitor'') (lit ''Notes'') of
           Inl e \<Rightarrow> Inl e
         | Inr long \<Rightarrow>
        (case getitem long (lit ''Notes'') of
           Inl e \<Rightarrow> Inl e
         | Inr notes \<Rightarrow> Inr (setitem long (lit ''Status'') (map (\<lambda>n. PStr (to_status ul n)) notes)))))"

text \<open>
  The Comparison Records of a dataset: its rows, read as (Feature, Competitor, Status).
  The competitor columns of a wide table are all its columns but \<open>Feature\<close>.
\<close>

definition records :: "dataframe \<Rightarrow> (pyval \<times> pyval \<times> pyval) list" where
  "records df =
     (case (map_of df (lit ''Feature''), map_of df (lit ''Competitor''), map_of df (lit ''Status'')) of
        (Some f, Some c, Some s) \<Rightarrow> zip f (zip c s)
      | _ \<Rightarrow> [])"

definition competitor_columns :: "dataframe \<Rightarrow> pystr list" where
  "competitor_columns df = filter (\<lambda>n. n \<noteq> lit ''Feature'') (columns df)"

definition status_words :: "pystr set" where
  "status_words = {lit ''yes'', lit ''partial'', lit ''no'', lit ''na''}"

text \<open>
  What "already lower-case and trimmed" means for a Status cell: it is text,
  \<open>lower()\<close> has nothing to change in it, and it neither starts nor ends with a
  whitespace code point.
\<close>

definition trimmed :: "pystr \<Rightarrow> bool" where
  "trimmed s \<longleftrightarrow> s = [] \<or> (\<not> is_space (hd s) \<and> \<not> is_space (last s))"

definition normalized_text :: "unicode_lower \<Rightarrow> pyval \<Rightarrow> bool" where
  "normalized_text ul v = (case v of PStr s \<Rightarrow> py_lower ul s = s \<and> trimmed s | _ \<Rightarrow> False)"

section \<open>The view callback \<open>render_view\<close>\<close>

text \<open>
  The callback reads the module-level table \<open>df\<close>, builds a filtered copy \<open>dff\<close> and, for
  the heatmap, assigns a column to that copy. Tables are objects: the store holds the
  table at every address, \<open>.copy()\<close> allocates the next address, and a column assignment
  writes the table at the address it is applied to. A Python \<open>dict\<close> keeps its keys in
  insertion order; a grid is a pivoted table, one row per label with its labelled cells.
\<close>

type_synonym pydict = "(pystr \<times> pyval) list"
type_synonym grid = "(pystr \<times> (pystr \<times> pyval) list) list"
type_synonym store = "dataframe list"

text \<open>
  What the callback returns: the \<open>html.Div\<close> with its text, the \<open>DataTable\<close> with its
  column ids and its data rows, or the \<open>Graph\<close> with the grid handed to \<open>px.imshow\<close>.
  The styling arguments are constants of the layout and are left out.
\<close>

datatype view = Div pystr | DataTable "pystr list" "pydict list" | Graph grid

text \<open>
  A dropdown value is a list of labels or \<open>None\<close>; \<open>not value\<close> holds for \<open>None\<close> and for
  the empty list.
\<close>

definition selected :: "pystr list option \<Rightarrow> pystr list" where
  "selected sel = (case sel of None \<Rightarrow> [] | Some xs \<Rightarrow> xs)"

text \<open>
  \<open>Series.isin\<close> against a list of text labels, \<open>&\<close> on two boolean columns, and
  \<open>df[mask]\<close>, which keeps the rows where the mask holds.
\<close>

definition isin :: "pyval list \<Rightarrow> pystr list \<Rightarrow> bool list" where
  "isin cells sel = map (\<lambda>v. case v of PStr s \<Rightarrow> s \<in> set sel | _ \<Rightarrow> False) cells"

definition mask_and :: "bool list \<Rightarrow> bool list \<Rightarrow> bool list" where
  "mask_and a b = map (\<lambda>(x, y). x \<and> y) (zip a b)"

definition select :: "bool list \<Rightarrow> 'a list \<Rightarrow> 'a list" where
  "select keep xs = map snd (filter fst (zip keep xs))"

definition getitem_mask :: "dataframe \<Rightarrow> bool list \<Rightarrow> dataframe" where
  "getitem_mask df keep = map (\<lambda>(name, cells). (name, select keep cells)) df"

text \<open>
  \<open>pivot_table(index=..., columns=..., values=..., aggfunc="first")\<close>: the rows are
  grouped by their index and column labels and every group is reduced to its first
  cell that is not null, in row order. The result is read at a row label and a column
  label; where the pivot has no such row, no such column or no value, the reading is
  NaN. \<open>reindex\<close> on both axes lays the pivot out on the given labels in the given order.
\<close>

definition first_valid :: "pyval list \<Rightarrow> pyval" where
  "first_valid vs = (case filter (\<lambda>v. \<not> is_null v) vs of [] \<Rightarrow> PNaN | v # _ \<Rightarrow> v)"

definition pivot_table ::
  "dataframe \<Rightarrow> pystr \<Rightarrow> pystr \<Rightarrow> pystr \<Rightarrow> error + (pystr \<Rightarrow> pystr \<Rightarrow> pyval)" where
  "pivot_table df index cols values =
     (case getitem df values of
        Inl e \<Rightarrow> Inl e
      | Inr vs \<Rightarrow>
     (case getitem df index of
        Inl e \<Rightarrow> Inl e
      | Inr idx \<Rightarrow>
     (case getitem df cols of
        Inl e \<Rightarrow> Inl e
      | Inr cs \<Rightarrow>
          Inr (\<lambda>i c. first_valid (map (\<lambda>r. snd (snd r))
                 (filter (\<lambda>r. fst r = PStr i \<and> fst (snd r) = PStr c) (zip idx (zip cs vs))))))))"

definition reindex :: "(pystr \<Rightarrow> pystr \<Rightarrow> pyval) \<Rightarrow> pystr list \<Rightarrow> pystr list \<Rightarrow> grid" where
  "reindex pv rows cols = map (\<lambda>i. (i, map (\<lambda>c. (c, pv i c)) cols)) rows"

text \<open>
  \<open>score_map\<close>, \<open>Series.map\<close> with a \<open>dict\<close> (a cell that is not a key becomes NaN) and
  \<open>fillna\<close>.
\<close>

definition score_map :: "(pystr \<times> int) list" where
  "score_map = [(lit ''yes'', 3), (lit ''partial'', 2), (lit ''no'', 1), (lit ''na'', 0)]"

definition series_map :: "(pystr \<times> int) list \<Rightarrow> pyval list \<Rightarrow> pyval list" where
  "series_map d cells =
     map (\<lambda>v. case v of
            PStr s \<Rightarrow> (case map_of d s of Some n \<Rightarrow> PInt n | None \<Rightarrow> PNaN)
          | _ \<Rightarrow> PNaN) cells"

definition fillna :: "pyval \<Rightarrow> pyval list \<Rightarrow> pyval list" where
  "fillna x cells = map (\<lambda>v. if is_null v then x else v) cells"

text \<open>
  A data row of the table: \<open>{"Feature": idx, **row.dropna().to_dict()}\<close>.
\<close>

definition dropna :: "(pystr \<times> pyval) list \<Rightarrow> (pystr \<times> pyval) list" where
  "dropna row = filter (\<lambda>kv. \<not> is_null (snd kv)) row"

definition dict_update :: "pydict \<Rightarrow> (pystr \<times> pyval) list \<Rightarrow> pydict" where
  "dict_update d items = foldl (\<lambda>d kv. setitem d (fst kv) (snd kv)) d items"

definition table_row :: "pystr \<times> (pystr \<times> pyval) list \<Rightarrow> pydict" where
  "table_row r = dict_update [(lit ''Feature'', PStr (fst r))] (dict_update [] (dropna (snd r)))"

definition please_select :: pystr where
  "please_select = lit ''Please select at least one competitor and one feature.''"

text \<open>
  \<open>render_view\<close>, with the address \<open>df\<close> of the module-level table and the store. It
  returns the view or the exception, and the store it leaves behind.
\<close>

definition render_view ::
  "nat \<Rightarrow> pystr list option \<Rightarrow> pystr list option \<Rightarrow> pystr \<Rightarrow> store \<Rightarrow> (error + view) \<times> store" where
  "render_view df competitors features mode st =
     (if selected competitors = [] \<or> selected features = [] then (Inr (Div please_select), st)
      else
        case getitem (st ! df) (lit ''Competitor'') of
          Inl e \<Rightarrow> (Inl e, st)
        | Inr ccol \<Rightarrow>
       (case getitem (st ! df) (lit ''Feature'') of
          Inl e \<Rightarrow> (Inl e, st)
        | Inr fcol \<Rightarrow>
            let keep = mask_and (isin ccol (selected competitors)) (isin fcol (selected features));
                dff = length st;
                st1 = st @ [getitem_mask (st ! df) keep]
            in if mode = lit ''table'' then
                 (case pivot_table (st1 ! dff) (lit ''Feature'') (lit ''Competitor'') (lit ''Status'') of
                    Inl e \<Rightarrow> (Inl e, st1)
                  | Inr pv \<Rightarrow>
                      let wide = reindex pv (sort (selected features)) (sort (selected competitors))
                      in (Inr (DataTable (lit ''Feature'' # sort (selected competitors))
                                (map table_row wide)), st1))
               else
                 (case getitem (st1 ! dff) (lit ''Status'') of
                    Inl e \<Rightarrow> (Inl e, st1)
                  | Inr status \<Rightarrow>
                      let st2 = st1[dff := setitem (st1 ! dff) (lit ''score'')
                                     (fillna (PInt 0) (series_map score_map status))]
                      in (case pivot_table (st2 ! dff) (lit ''Feature'') (lit ''Competitor'') (lit ''score'') of
                            Inl e \<Rightarrow> (Inl e, st2)
                          | Inr pv \<Rightarrow>
                              (Inr (Graph (reindex pv (sort (selected features))
                                       (sort (selected competitors)))), st2)))))"

text \<open>Reading a grid at a row label and a column label.\<close>

definition grid_at :: "grid \<Rightarrow> pystr \<Rightarrow> pystr \<Rightarrow> pyval option" where
  "grid_at g i c = (case map_of g i of None \<Rightarrow> None | Some row \<Rightarrow> map_of row c)"

subsection \<open>The specification's reading of a cell\<close>

text \<open>
  These definitions are not taken from the source. They say in the specification's
  terms what a cell of the table and of the score grid should be, and the code is
  compared with them: the records of a (feature, competitor) pair in dataset order, the
  fixed score table with 0 for anything that is not one of its four keys, the score
  of a pair's first record, and the first Status of a pair that is not missing.
\<close>

definition pair_records ::
  "(pyval \<times> pyval \<times> pyval) list \<Rightarrow> pystr \<Rightarrow> pystr \<Rightarrow> (pyval \<times> pyval \<times> pyval) list" where
  "pair_records recs f c = filter (\<lambda>r. fst r = PStr f \<and> fst (snd r) = PStr c) recs"

definition spec_score :: "pyval \<Rightarrow> int" where
  "spec_score v =
     (if v = PStr (lit ''yes'') then 3 else if v = PStr (lit ''partial'') then 2
      else if v = PStr (lit ''no'') then 1 else 0)"

definition spec_heat_cell :: "(pyval \<times> pyval \<times> pyval) list \<Rightarrow> pystr \<Rightarrow> pystr \<Rightarrow> pyval" where
  "spec_heat_cell recs f c =
     (case pair_records recs f c of [] \<Rightarrow> PNaN | r # _ \<Rightarrow> PInt (spec_score (snd (snd r))))"

definition spec_table_cell :: "(pyval \<times> pyval \<times> pyval) list \<Rightarrow> pystr \<Rightarrow> pystr \<Rightarrow> pyval" where
  "spec_table_cell recs f c =
     (case find (\<lambda>v. \<not> is_null v) (map (\<lambda>r. snd (snd r)) (pair_records recs f c)) of
        None \<Rightarrow> PNaN | Some v \<Rightarrow> v)"

subsection \<open>Two small datasets\<close>

text \<open>A long-form dataset in which two of the four pairs have no record.\<close>

definition sparse_dataset :: dataframe where
  "sparse_dataset =
     [(lit ''Feature'', [PStr (lit ''SSO''), PStr (lit ''API'')]),
      (lit ''Competitor'', [PStr (lit ''Acme''), PStr (lit ''Globex'')]),
      (lit ''Status'', [PStr (lit ''partial''), PStr (lit ''yes'')])]"

text \<open>A long-form dataset with two records for the same pair.\<close>

definition duplicate_dataset :: dataframe where
  "duplicate_dataset =
     [(lit ''Feature'', [PStr (lit ''SSO''), PStr (lit ''SSO'')]),
      (lit ''Competitor'', [PStr (lit ''Acme''), PStr (lit ''Acme'')]),
      (lit ''Status'', [PStr (lit ''yes''), PStr (lit ''no'')])]"

text \<open>
  A wide-form table with two features and two competitors, the dataset the load makes
  of it, and a long-form dataset whose statuses are already normalised.
\<close>

definition wide_example :: dataframe where
  "wide_example =
     [(lit ''Feature'', [PStr (lit ''SSO''), PStr (lit ''API'')]),
      (lit ''Acme'', [PStr (lit ''Missing''), PNaN]),
      (lit ''Globex'', [PStr (lit ''N/A''), PStr (lit ''Need to request'')])]"

definition wide_example_loaded :: dataframe where
  "wide_example_loaded =
     [(lit ''Feature'', [PStr (lit ''SSO''), PStr (lit ''API''), PStr (lit ''SSO''), PStr (lit ''API'')]),
      (lit ''Competitor'',
         [PStr (lit ''Acme''), PStr (lit ''Acme''), PStr (lit ''Globex''), PStr (lit ''Globex'')]),
      (lit ''Notes'', [PStr (lit ''Missing''), PNaN, PStr (lit ''N/A''), PStr (lit ''Need to request'')]),
      (lit ''Status'', [PStr (lit ''partial''), PStr (lit ''yes''), PStr (lit ''na''), PStr (lit ''no'')])]"

definition long_example :: dataframe where
  "long_example =
     [(lit ''Feature'', [PStr (lit ''SSO''), PStr (lit ''API'')]),
      (lit ''Competitor'', [PStr (lit ''Acme''), PStr (lit ''Acme'')]),
      (lit ''Status'', [PStr (lit ''yes''), PStr (lit ''n/a'')])]"

section \<open>Facts about text\<close>

lemma startswith_iff: "startswith pat t \<longleftrightarrow> (\<exists>q. t = pat @ q)"
  by (induction pat t rule: startswith.induct) auto

lemma py_in_iff: "py_in pat t \<longleftrightarrow> (\<exists>p q. t = p @ pat @ q)"
proof (induction t)
  case Nil
  then show ?case by simp
next
  case (Cons c cs)
  show ?case
  proof
    assume "py_in pat (c # cs)"
    then consider "startswith pat (c # cs)" | "py_in pat cs" by auto
    then show "\<exists>p q. c # cs = p @ pat @ q"
    proof cases
      case 1
      then obtain q where "c # cs = pat @ q" by (auto simp: startswith_iff)
      then have "c # cs = [] @ pat @ q" by simp
      then show ?thesis by blast
    next
      case 2
      then obtain p q where "cs = p @ pat @ q" using Cons.IH by blast
      then have "c # cs = (c # p) @ pat @ q" by simp
      then show ?thesis by blast
    qed
  next
    assume "\<exists>p q. c # cs = p @ pat @ q"
    then obtain p q where pq: "c # cs = p @ pat @ q" by blast
    show "py_in pat (c # cs)"
    proof (cases p)
      case Nil
      with pq have "startswith pat (c # cs)" by (auto simp: startswith_iff)
      then show ?thesis by simp
    next
      case (Cons a p')
      with pq have "cs = p' @ pat @ q" by simp
      then have "py_in pat cs" using Cons.IH by blast
      then show ?thesis by simp
    qed
  qed
qed

lemma py_or_empty [simp]: "py_or s (lit '''') = s"
  by (simp add: py_or_def lit_def)

lemma lower_from_ascii:
  "\<forall>c \<in> set cs. c < 128 \<Longrightarrow> lower_from ul s i cs = map ascii_lower cs"
  by (induction cs arbitrary: i) auto

lemma py_lower_ascii: "\<forall>c \<in> set s. c < 128 \<Longrightarrow> py_lower ul s = map ascii_lower s"
  by (simp add: py_lower_def lower_from_ascii)

lemma ascii_lower_small: "ascii_lower c < 128 \<longleftrightarrow> c < 128"
  by (auto simp: ascii_lower_def)

lemma map_ascii_lower_small:
  "\<forall>c \<in> set (map ascii_lower s). c < 128 \<Longrightarrow> \<forall>c \<in> set s. c < 128"
  by (auto simp: ascii_lower_small)

text \<open>The definitions to unfold when a function is run on a concrete input.\<close>

lemmas text_eval =
  py_lower_def lit_def slash_artifact_def Let_def ascii_lower_def py_or_def latin1_lower_def

lemma lit_eq_iff [simp]: "lit a = lit b \<longleftrightarrow> a = b"
  by (simp add: lit_def inj_map_eq_map inj_of_char)

lemma to_status_word: "to_status ul v \<in> status_words"
  by (simp add: to_status_def Let_def status_words_def)

lemma slash_artifact_is_like: "slash_artifact_like slash_artifact"
  by (simp add: slash_artifact_like_def slash_artifact_def)

section \<open>Facts about tables\<close>

lemma has_col_map_of: "has_col name df \<longleftrightarrow> map_of df name \<noteq> None"
  by (simp add: has_col_def columns_def map_of_eq_None_iff)

lemma getitem_Inr: "getitem df name = Inr cells \<longleftrightarrow> map_of df name = Some cells"
  by (simp add: getitem_def split: option.splits)

lemma getitem_Inl: "getitem df name = Inl e \<longleftrightarrow> \<not> has_col name df \<and> e = KeyError name"
  by (auto simp: getitem_def has_col_map_of split: option.splits)

lemma setitem_same: "map_of df name = Some cells \<Longrightarrow> setitem df name cells = df"
  by (induction df) (auto split: if_splits)

lemma is_text_str_apply [simp]: "is_text (str_apply f v) = is_text v"
  by (cases v) (simp_all add: str_apply_def is_text_def is_null_def)

lemma str_accessor_ok_map [simp]:
  "str_accessor_ok (map (str_apply f) cells) = str_accessor_ok cells"
  by (auto simp: str_accessor_ok_def)

lemma wf_df_length: "wf_df df \<Longrightarrow> map_of df name = Some cells \<Longrightarrow> length cells = nrows df"
proof -
  assume wf: "wf_df df" and m: "map_of df name = Some cells"
  from m have "(name, cells) \<in> set df" by (rule map_of_SomeD)
  with wf have "length (snd (name, cells)) = nrows df"
    unfolding wf_df_def by blast
  then show ?thesis by simp
qed

lemma zip_tile_repeat:
  "zip (concat (replicate (length vals) ids)) (concat (map (\<lambda>c. replicate (length ids) (g c)) vals))
     = concat (map (\<lambda>c. map (\<lambda>i. (i, g c)) ids) vals)"
proof (induction vals)
  case Nil
  then show ?case by simp
next
  case (Cons v vals)
  have one: "zip ids (replicate (length ids) (g v)) = map (\<lambda>i. (i, g v)) ids"
    by (simp add: zip_replicate2)
  show ?case
    using Cons.IH by (simp add: one)
qed

lemma length_concat_cols:
  "\<forall>c \<in> set vals. length (snd c) = N \<Longrightarrow> length (concat (map snd vals)) = length vals * N"
  by (induction vals) auto

lemma distinct_pairs:
  "distinct ids \<Longrightarrow> distinct names \<Longrightarrow>
   distinct (concat (map (\<lambda>n. map (\<lambda>i. (i, PStr n)) ids) names))"
  by (induction names) (auto simp: distinct_map inj_on_def)

lemma melt_Inl:
  "melt df id_var var_name value_name = Inl e \<longleftrightarrow>
     (if has_col value_name df then e = ValueError
      else \<not> has_col id_var df \<and> e = KeyError id_var)"
proof (cases "getitem df id_var")
  case (Inl e')
  then have "\<not> has_col id_var df" and "e' = KeyError id_var"
    by (simp_all add: getitem_Inl)
  with Inl show ?thesis
    by (auto simp: melt_def)
next
  case (Inr ids)
  then have "has_col id_var df"
    by (simp add: getitem_Inr has_col_map_of)
  with Inr show ?thesis
    by (auto simp: melt_def Let_def)
qed

lemma melt_Inr:
  "melt df id_var var_name value_name = Inr long \<Longrightarrow>
   \<exists>ids. getitem df id_var = Inr ids \<and> \<not> has_col value_name df \<and>
     long = [(id_var, concat (replicate (length (filter (\<lambda>c. fst c \<noteq> id_var) df)) ids)),
             (var_name, concat (map (\<lambda>c. replicate (nrows df) (PStr (fst c)))
                 (filter (\<lambda>c. fst c \<noteq> id_var) df))),
             (value_name, concat (map snd (filter (\<lambda>c. fst c \<noteq> id_var) df)))]"
  by (auto simp: melt_def Let_def split: sum.splits if_splits)

lemma load_dataset_long:
  assumes "has_col (lit ''Status'') df" and "has_col (lit ''Competitor'') df"
    and "getitem df (lit ''Status'') = Inr cells"
  shows "load_dataset ul df =
     (if str_accessor_ok cells
      then Inr (setitem df (lit ''Status'') (map (str_apply py_strip) (map (str_apply (py_lower ul)) cells)))
      else Inl AttributeError)"
  using assms by (simp add: load_dataset_def str_method_def)

lemma load_dataset_wide_fail:
  assumes "\<not> (has_col (lit ''Status'') df \<and> has_col (lit ''Competitor'') df)"
    and "melt df (lit ''Feature'') (lit ''Competitor'') (lit ''Notes'') = Inl e"
  shows "load_dataset ul df = Inl e"
  using assms by (auto simp: load_dataset_def)

lemma load_dataset_wide_ok:
  assumes "\<not> (has_col (lit ''Status'') df \<and> has_col (lit ''Competitor'') df)"
    and "melt df (lit ''Feature'') (lit ''Competitor'') (lit ''Notes'') = Inr long"
  shows "\<exists>f c n. long = [(lit ''Feature'', f), (lit ''Competitor'', c), (lit ''Notes'', n)] \<and>
     load_dataset ul df =
       Inr [(lit ''Feature'', f), (lit ''Competitor'', c), (lit ''Notes'', n),
            (lit ''Status'', map (\<lambda>n. PStr (to_status ul n)) n)]"
proof -
  from melt_Inr [OF assms(2)] obtain f c n
    where long: "long = [(lit ''Feature'', f), (lit ''Competitor'', c), (lit ''Notes'', n)]"
    by blast
  have "load_dataset ul df =
      Inr (setitem long (lit ''Status'') (map (\<lambda>n. PStr (to_status ul n)) n))"
    using assms long by (auto simp: load_dataset_def getitem_def)
  with long show ?thesis
    by simp
qed

lemma py_strip_trimmed: "trimmed s \<Longrightarrow> py_strip s = s"
proof -
  assume t: "trimmed s"
  then have front: "dropWhile is_space s = s"
    by (auto simp: trimmed_def dropWhile_eq_self_iff)
  from t have "dropWhile is_space (rev s) = rev s"
    by (auto simp: trimmed_def dropWhile_eq_self_iff hd_rev)
  with front show ?thesis
    by (simp add: py_strip_def)
qed

lemma normalized_text_apply:
  "normalized_text ul v \<Longrightarrow> str_apply py_strip (str_apply (py_lower ul) v) = v"
  by (cases v) (simp_all add: normalized_text_def str_apply_def py_strip_trimmed)

lemma normalized_text_is_text: "normalized_text ul v \<Longrightarrow> is_text v"
  by (cases v) (simp_all add: normalized_text_def is_text_def)

lemma records_wide:
  "records [(lit ''Feature'', f), (lit ''Competitor'', c), (lit ''Notes'', n), (lit ''Status'', s)]
     = zip f (zip c s)"
  by (simp add: records_def)

lemma map_fst_zip3:
  "length c = length f \<Longrightarrow> length s = length f \<Longrightarrow>
   map (\<lambda>(a, b, d). (a, b)) (zip f (zip c s)) = zip f c"
proof (induction f arbitrary: c s)
  case Nil
  then show ?case by simp
next
  case (Cons a f)
  then show ?case by (cases c; cases s) auto
qed

lemma zip3_third: "r \<in> set (zip f (zip c s)) \<Longrightarrow> snd (snd r) \<in> set s"
proof -
  assume r: "r \<in> set (zip f (zip c s))"
  obtain a b d where abd: "r = (a, b, d)" by (cases r) auto
  with r have "(b, d) \<in> set (zip c s)" by (auto dest: set_zip_rightD)
  then have "d \<in> set s" by (rule set_zip_rightD)
  with abd show ?thesis by simp
qed

lemmas table_eval =
  load_dataset_def melt_def has_col_def columns_def getitem_def str_method_def nrows_def
  str_accessor_ok_def is_text_def is_null_def str_apply_def py_strip_def is_space_def
  records_def competitor_columns_def wf_df_def

section \<open>Facts about the view callback\<close>

lemma map_of_setitem: "map_of (setitem d k v) k' = (if k' = k then Some v else map_of d k')"
  by (induction d) auto

lemma getitem_setitem:
  "getitem (setitem d k v) k' = (if k' = k then Inr v else getitem d k')"
  by (simp add: getitem_def map_of_setitem)

lemma getitem_getitem_mask:
  "getitem (getitem_mask d keep) name =
     (case getitem d name of Inl e \<Rightarrow> Inl e | Inr cells \<Rightarrow> Inr (select keep cells))"
  by (induction d) (auto simp: getitem_def getitem_mask_def)

lemma select_rows:
  "length ccol = length fcol \<Longrightarrow> length scol = length fcol \<Longrightarrow>
   zip (select (mask_and (isin ccol cs) (isin fcol fs)) fcol)
     (zip (select (mask_and (isin ccol cs) (isin fcol fs)) ccol)
          (select (mask_and (isin ccol cs) (isin fcol fs)) scol))
   = filter (\<lambda>r. (case fst (snd r) of PStr s \<Rightarrow> s \<in> set cs | _ \<Rightarrow> False) \<and>
                 (case fst r of PStr s \<Rightarrow> s \<in> set fs | _ \<Rightarrow> False))
       (zip fcol (zip ccol scol))"
proof (induction fcol arbitrary: ccol scol)
  case Nil
  then show ?case by (simp add: select_def mask_and_def isin_def)
next
  case (Cons f fcol)
  then obtain c ccol' s scol' where eq: "ccol = c # ccol'" "scol = s # scol'"
    by (cases ccol; cases scol) auto
  with Cons.prems have len: "length ccol' = length fcol" "length scol' = length fcol"
    by auto
  from Cons.IH [OF len] show ?case
    unfolding eq by (simp add: select_def mask_and_def isin_def)
qed

lemma pair_records_selected:
  "f \<in> set fs \<Longrightarrow> c \<in> set cs \<Longrightarrow>
   pair_records (filter (\<lambda>r. (case fst (snd r) of PStr s \<Rightarrow> s \<in> set cs | _ \<Rightarrow> False) \<and>
                 (case fst r of PStr s \<Rightarrow> s \<in> set fs | _ \<Rightarrow> False)) recs) f c
   = pair_records recs f c"
  unfolding pair_records_def filter_filter
  by (rule filter_cong) auto

lemma first_valid_find:
  "first_valid vs = (case find (\<lambda>v. \<not> is_null v) vs of None \<Rightarrow> PNaN | Some v \<Rightarrow> v)"
  by (induction vs) (auto simp: first_valid_def)

lemma scores_eq:
  "fillna (PInt 0) (series_map score_map cells) = map (\<lambda>v. PInt (spec_score v)) cells"
  by (auto simp: fillna_def series_map_def score_map_def spec_score_def is_null_def
      split: pyval.splits)

lemma first_valid_scores:
  "first_valid (map (\<lambda>r. PInt (h r)) rs) = (case rs of [] \<Rightarrow> PNaN | r # _ \<Rightarrow> PInt (h r))"
  by (cases rs) (simp_all add: first_valid_def is_null_def)

lemma zip3_map_third:
  "zip a (zip b (map h s)) = map (\<lambda>r. (fst r, fst (snd r), h (snd (snd r)))) (zip a (zip b s))"
  by (simp add: zip_map2 case_prod_unfold)

lemma map_of_keys: "map_of (map (\<lambda>k. (k, h k)) xs) k = (if k \<in> set xs then Some (h k) else None)"
  by (induction xs) auto

lemma grid_at_reindex:
  "i \<in> set rows \<Longrightarrow> c \<in> set cols \<Longrightarrow> grid_at (reindex pv rows cols) i c = Some (pv i c)"
  by (simp add: grid_at_def reindex_def map_of_keys)

lemma records_cols:
  "getitem d (lit ''Feature'') = Inr fcol \<Longrightarrow> getitem d (lit ''Competitor'') = Inr ccol \<Longrightarrow>
   getitem d (lit ''Status'') = Inr scol \<Longrightarrow> records d = zip fcol (zip ccol scol)"
  by (simp add: records_def getitem_Inr)

lemma render_view_table:
  assumes wf: "wf_df (st ! df)"
    and fcol: "getitem (st ! df) (lit ''Feature'') = Inr fcol"
    and ccol: "getitem (st ! df) (lit ''Competitor'') = Inr ccol"
    and scol: "getitem (st ! df) (lit ''Status'') = Inr scol"
    and sel: "cs \<noteq> []" "fs \<noteq> []"
  shows "render_view df (Some cs) (Some fs) (lit ''table'') st =
     (Inr (DataTable (lit ''Feature'' # sort cs)
        (map table_row (reindex (\<lambda>i c. first_valid (map (\<lambda>r. snd (snd r))
            (pair_records (filter (\<lambda>r. (case fst (snd r) of PStr s \<Rightarrow> s \<in> set cs | _ \<Rightarrow> False) \<and>
                 (case fst r of PStr s \<Rightarrow> s \<in> set fs | _ \<Rightarrow> False)) (records (st ! df))) i c)))
          (sort fs) (sort cs)))),
      st @ [getitem_mask (st ! df) (mask_and (isin ccol cs) (isin fcol fs))])"
proof -
  from wf fcol ccol scol have len: "length ccol = length fcol" "length scol = length fcol"
    by (simp_all add: getitem_Inr wf_df_length)
  have recs: "records (st ! df) = zip fcol (zip ccol scol)"
    using fcol ccol scol by (rule records_cols)
  show ?thesis
    using sel fcol ccol scol
    by (simp add: render_view_def selected_def Let_def pivot_table_def getitem_getitem_mask
        select_rows [OF len] recs pair_records_def)
qed

lemma render_view_heat:
  assumes wf: "wf_df (st ! df)"
    and fcol: "getitem (st ! df) (lit ''Feature'') = Inr fcol"
    and ccol: "getitem (st ! df) (lit ''Competitor'') = Inr ccol"
    and scol: "getitem (st ! df) (lit ''Status'') = Inr scol"
    and sel: "cs \<noteq> []" "fs \<noteq> []"
    and mode: "mode \<noteq> lit ''table''"
  shows "render_view df (Some cs) (Some fs) mode st =
     (Inr (Graph (reindex (\<lambda>i c. first_valid (map (\<lambda>r. PInt (spec_score (snd (snd r))))
            (pair_records (filter (\<lambda>r. (case fst (snd r) of PStr s \<Rightarrow> s \<in> set cs | _ \<Rightarrow> False) \<and>
                 (case fst r of PStr s \<Rightarrow> s \<in> set fs | _ \<Rightarrow> False)) (records (st ! df))) i c)))
          (sort fs) (sort cs))),
      (st @ [getitem_mask (st ! df) (mask_and (isin ccol cs) (isin fcol fs))])
        [length st := setitem (getitem_mask (st ! df) (mask_and (isin ccol cs) (isin fcol fs)))
           (lit ''score'')
           (map (\<lambda>v. PInt (spec_score v)) (select (mask_and (isin ccol cs) (isin fcol fs)) scol))])"
proof -
  from wf fcol ccol scol have len: "length ccol = length fcol" "length scol = length fcol"
    by (simp_all add: getitem_Inr wf_df_length)
  have recs: "records (st ! df) = zip fcol (zip ccol scol)"
    using fcol ccol scol by (rule records_cols)
  show ?thesis
    using sel fcol ccol scol mode
    by (simp add: render_view_def selected_def Let_def pivot_table_def getitem_getitem_mask
        getitem_setitem scores_eq zip3_map_third select_rows [OF len] recs pair_records_def
        filter_map comp_def)
qed

lemma set_setitem: "set (setitem d k v) \<subseteq> insert (k, v) (set d)"
  by (induction d) auto

lemma keys_setitem: "fst ` set (setitem d k v) = insert k (fst ` set d)"
  by (induction d) auto

lemma set_dict_update: "set (dict_update d items) \<subseteq> set d \<union> set items"
proof (induction items arbitrary: d)
  case Nil
  then show ?case by (simp add: dict_update_def)
next
  case (Cons x items)
  have "set (dict_update (setitem d (fst x) (snd x)) items)
      \<subseteq> set (setitem d (fst x) (snd x)) \<union> set items"
    by (rule Cons.IH)
  moreover have "set (setitem d (fst x) (snd x)) \<subseteq> insert x (set d)"
    using set_setitem [of d "fst x" "snd x"] by simp
  ultimately show ?case
    by (auto simp: dict_update_def)
qed

lemma keys_dict_update: "fst ` set (dict_update d items) = fst ` set d \<union> fst ` set items"
proof (induction items arbitrary: d)
  case Nil
  then show ?case by (simp add: dict_update_def)
next
  case (Cons x items)
  have "fst ` set (dict_update (setitem d (fst x) (snd x)) items)
      = fst ` set (setitem d (fst x) (snd x)) \<union> fst ` set items"
    by (rule Cons.IH)
  then show ?case
    by (simp add: dict_update_def keys_setitem)
qed

lemma map_of_dict_update:
  "map_of (dict_update d items) k =
     (case map_of (rev items) k of Some v \<Rightarrow> Some v | None \<Rightarrow> map_of d k)"
proof (induction items arbitrary: d)
  case Nil
  then show ?case by (simp add: dict_update_def)
next
  case (Cons x items)
  have "map_of (dict_update (setitem d (fst x) (snd x)) items) k =
      (case map_of (rev items) k of Some v \<Rightarrow> Some v
       | None \<Rightarrow> map_of (setitem d (fst x) (snd x)) k)"
    by (rule Cons.IH)
  then show ?case
    by (cases x) (auto simp: dict_update_def map_of_setitem map_add_def split: option.splits)
qed

lemma map_of_graph:
  "\<forall>kv \<in> set l. snd kv = g (fst kv) \<Longrightarrow>
   map_of l k = (if k \<in> fst ` set l then Some (g k) else None)"
  by (induction l) auto

lemma table_row_cell:
  assumes c: "c \<in> set cols" and nf: "c \<noteq> lit ''Feature''"
  shows "map_of (table_row (f, map (\<lambda>c. (c, g c)) cols)) c =
           (if is_null (g c) then None else Some (g c))"
proof -
  let ?xs = "dropna (map (\<lambda>c. (c, g c)) cols)"
  let ?d = "dict_update [] ?xs"
  have graph_xs: "\<forall>kv \<in> set ?xs. snd kv = g (fst kv)"
    by (auto simp: dropna_def)
  have "set ?d \<subseteq> set ?xs"
    using set_dict_update [of "[]" ?xs] by simp
  with graph_xs have graph_d: "\<forall>kv \<in> set (rev ?d). snd kv = g (fst kv)"
    by auto
  have keys: "fst ` set ?d = {k \<in> set cols. \<not> is_null (g k)}"
    by (auto simp: keys_dict_update dropna_def image_iff)
  have "map_of (rev ?d) c = (if c \<in> fst ` set (rev ?d) then Some (g c) else None)"
    using graph_d by (rule map_of_graph)
  also have "\<dots> = (if is_null (g c) then None else Some (g c))"
    using c by (simp add: keys)
  finally have "map_of (rev ?d) c = (if is_null (g c) then None else Some (g c))" .
  then show ?thesis
    using nf by (simp add: table_row_def map_of_dict_update)
qed

lemmas view_eval =
  render_view_def selected_def getitem_def isin_def mask_and_def getitem_mask_def select_def
  pivot_table_def reindex_def score_map_def series_map_def fillna_def is_null_def
  first_valid_def table_row_def dict_update_def dropna_def Let_def lit_def

section \<open>The claims\<close>

text \<open>
  C1, as stated, applies the rules to the normalised text, which the specification
  obtains by converting to text, lower-casing and trimming, and counts an encoding
  artifact of the slash as \<open>n/a\<close>. The code lower-cases without trimming, so \<open>n/a\<close>
  between two spaces is not equal to \<open>n/a\<close> and is classified \<open>yes\<close>. The mis-encoded
  literal of the tuple holds the capital letters U+00C5 and U+00D1, and the text
  compared with it has been lower-cased: the literal itself, met as a Notes value, is
  classified \<open>yes\<close> too.
\<close>

theorem to_status_first_match_counterexample:
  "to_status latin1_lower (PStr (lit '' n/a '')) = lit ''yes'' \<and>
   to_status latin1_lower (PStr slash_artifact) = lit ''yes''"
  by (simp add: to_status_def text_eval)

text \<open>
  C1, amended. For every Notes value whose text is not of the shape a mis-encoded
  slash gives \<open>n/a\<close>, \<open>to_status\<close> is first-match-wins over the ordered rules, read on the
  text \<open>t\<close> that \<open>str\<close> and lower-casing give, without trimming: (1) \<open>t\<close> equal to \<open>na\<close> or
  to \<open>n/a\<close> gives \<open>na\<close>; (2) else \<open>t\<close> containing \<open>need to request\<close> gives \<open>no\<close>; (3) else
  \<open>t\<close> containing \<open>primarily\<close>, \<open>missing\<close>, \<open>lacks\<close> or \<open>for users who can read\<close> gives
  \<open>partial\<close>; (4) else \<open>yes\<close>. A text matching an earlier and a later rule gets the earlier
  rule's status, since each rule is only reached when all earlier ones have failed.
  Containment is stated independently of the search the model runs: \<open>t\<close> splits into a
  part before the pattern, the pattern, and a part after it. Lower-casing is stated
  independently too: on a text of ASCII code points, \<open>t\<close> is the text with \<open>A\<close>..\<open>Z\<close>
  replaced by \<open>a\<close>..\<open>z\<close>. What happens to a text of the excluded shape is left open.
\<close>

theorem to_status_first_match:
  assumes "\<not> slash_artifact_like (py_lower ul (py_str text))"
  shows "to_status ul text =
     (let t = py_lower ul (py_str text)
      in if t = lit ''na'' \<or> t = lit ''n/a'' then lit ''na''
         else if (\<exists>p q. t = p @ lit ''need to request'' @ q) then lit ''no''
         else if (\<exists>p q. t = p @ lit ''primarily'' @ q) \<or>
                 (\<exists>p q. t = p @ lit ''missing'' @ q) \<or>
                 (\<exists>p q. t = p @ lit ''lacks'' @ q) \<or>
                 (\<exists>p q. t = p @ lit ''for users who can read'' @ q)
           then lit ''partial''
         else lit ''yes'') \<and>
     ((\<forall>c \<in> set (py_str text). c < 128) \<longrightarrow>
        py_lower ul (py_str text) = map ascii_lower (py_str text))"
proof -
  let ?t = "py_lower ul (py_str text)"
  have normal: "py_lower ul (py_or (py_str text) (lit '''')) = ?t"
    by simp
  from assms have "?t \<noteq> slash_artifact"
    using slash_artifact_is_like by auto
  then have rule1: "?t \<in> set [lit ''na'', lit ''n/a'', slash_artifact] \<longleftrightarrow>
      ?t = lit ''na'' \<or> ?t = lit ''n/a''"
    by simp
  have contains: "py_in pat ?t \<longleftrightarrow> (\<exists>p q. ?t = p @ pat @ q)" for pat
    by (rule py_in_iff)
  have chain: "to_status ul text =
     (let t = ?t
      in if t = lit ''na'' \<or> t = lit ''n/a'' then lit ''na''
         else if (\<exists>p q. t = p @ lit ''need to request'' @ q) then lit ''no''
         else if (\<exists>p q. t = p @ lit ''primarily'' @ q) \<or>
                 (\<exists>p q. t = p @ lit ''missing'' @ q) \<or>
                 (\<exists>p q. t = p @ lit ''lacks'' @ q) \<or>
                 (\<exists>p q. t = p @ lit ''for users who can read'' @ q)
           then lit ''partial''
         else lit ''yes'')"
    unfolding to_status_def Let_def normal rule1 contains ..
  have ascii: "(\<forall>c \<in> set (py_str text). c < 128) \<longrightarrow> ?t = map ascii_lower (py_str text)"
    by (simp add: py_lower_ascii)
  from chain ascii show ?thesis
    by (rule conjI)
qed

text \<open>
  A text in mixed case that matches rule (2) and rule (3) at once: it contains
  \<open>missing\<close> and \<open>need to request\<close> once lower-cased, and is classified \<open>no\<close>.
\<close>

theorem to_status_first_match_witness:
  "\<not> slash_artifact_like (py_lower latin1_lower (py_str (PStr (lit ''MISSING sso: Need To Request it'')))) \<and>
   py_lower latin1_lower (py_str (PStr (lit ''MISSING sso: Need To Request it'')))
     = lit ''missing sso: need to request it'' \<and>
   to_status latin1_lower (PStr (lit ''MISSING sso: Need To Request it'')) = lit ''no''"
proof -
  have h: "\<not> slash_artifact_like
      (py_lower latin1_lower (py_str (PStr (lit ''MISSING sso: Need To Request it''))))"
    by (simp add: slash_artifact_like_def text_eval)
  have a: "\<forall>c \<in> set (py_str (PStr (lit ''MISSING sso: Need To Request it''))). c < 128"
    by (simp add: lit_def)
  have m: "map ascii_lower (py_str (PStr (lit ''MISSING sso: Need To Request it'')))
      = lit ''missing sso: need to request it''"
    by (simp add: lit_def ascii_lower_def)
  from to_status_first_match [OF h] a m
  have low: "py_lower latin1_lower (py_str (PStr (lit ''MISSING sso: Need To Request it'')))
      = lit ''missing sso: need to request it''"
    by simp
  from to_status_first_match [OF h]
  have "to_status latin1_lower (PStr (lit ''MISSING sso: Need To Request it'')) = lit ''no''"
    unfolding low py_in_iff [symmetric] by (simp add: lit_def)
  with h low show ?thesis
    by simp
qed

text \<open>
  C2, as stated, promises \<open>na\<close> for \<open>na\<close> or \<open>n/a\<close> in any letter case with surrounding
  whitespace, and names \<open>to_status(" NA ") = na\<close>. The code lower-cases but never trims,
  so the padded text is not equal to \<open>na\<close>, matches no later rule and is classified
  \<open>yes\<close>.
\<close>

theorem to_status_padded_counterexample:
  "to_status latin1_lower (PStr (lit '' NA '')) = lit ''yes''"
  by (simp add: to_status_def text_eval)

text \<open>
  C2, amended. For every Notes value whose text is \<open>na\<close> or \<open>n/a\<close> in any letter case
  (the value is converted to text and lower-cased before the equality check),
  \<open>to_status\<close> returns \<open>na\<close>. The hypothesis says that the text is one of the two words
  up to the case of its ASCII letters.
\<close>

theorem to_status_na_any_case:
  assumes "map ascii_lower (py_str text) = lit ''na'' \<or>
           map ascii_lower (py_str text) = lit ''n/a''"
  shows "to_status ul text = lit ''na''"
proof -
  from assms have "\<forall>c \<in> set (map ascii_lower (py_str text)). c < 128"
    by (auto simp: lit_def)
  then have "\<forall>c \<in> set (py_str text). c < 128"
    by (rule map_ascii_lower_small)
  then have "py_lower ul (py_str text) = map ascii_lower (py_str text)"
    by (rule py_lower_ascii)
  with assms show ?thesis
    by (auto simp: to_status_def Let_def)
qed

theorem to_status_na_any_case_witness:
  "(map ascii_lower (py_str (PStr (lit ''N/A''))) = lit ''na'' \<or>
    map ascii_lower (py_str (PStr (lit ''N/A''))) = lit ''n/a'') \<and>
   to_status latin1_lower (PStr (lit ''N/A'')) = lit ''na''"
proof -
  have h: "map ascii_lower (py_str (PStr (lit ''N/A''))) = lit ''na'' \<or>
           map ascii_lower (py_str (PStr (lit ''N/A''))) = lit ''n/a''"
    by (simp add: lit_def ascii_lower_def)
  from to_status_na_any_case [OF h] h show ?thesis by simp
qed

text \<open>
  C3, as stated, says that the classifier and reshaper fails when required columns are
  missing in the long-form branch and has no other failure. A long-form table with
  \<open>Competitor\<close> and \<open>Status\<close> but no \<open>Feature\<close> column is normalised without any
  error, and a long-form table with all three columns fails in the \<open>.str\<close> accessor
  when its \<open>Status\<close> column holds numbers.
\<close>

theorem load_dataset_failures_counterexample:
  "load_dataset latin1_lower
     [(lit ''Competitor'', [PStr (lit ''Acme'')]), (lit ''Status'', [PStr (lit ''Yes'')])]
     = Inr [(lit ''Competitor'', [PStr (lit ''Acme'')]), (lit ''Status'', [PStr (lit ''yes'')])] \<and>
   load_dataset latin1_lower
     [(lit ''Feature'', [PStr (lit ''SSO'')]), (lit ''Competitor'', [PStr (lit ''Acme'')]),
      (lit ''Status'', [PInt 1])]
     = Inl AttributeError"
  by (simp add: load_dataset_def has_col_def columns_def getitem_def str_method_def
      str_accessor_ok_def is_text_def str_apply_def py_strip_def is_space_def text_eval)

text \<open>
  C3, amended. The classifier and reshaper fails at load time in exactly these cases.
  In the wide-form branch: with a \<open>ValueError\<close> when the table already has a column
  named \<open>Notes\<close>, and otherwise with a \<open>KeyError\<close> when it has no \<open>Feature\<close> column. In
  the long-form branch: with an \<open>AttributeError\<close> when the \<open>Status\<close> column has rows and
  none of them is text. The long-form branch asks for no column beyond \<open>Status\<close> and
  \<open>Competitor\<close>. The errors are those of pandas; the code has no \<open>SchemaError\<close>.
\<close>

theorem load_dataset_failures:
  "load_dataset ul df = Inl e \<longleftrightarrow>
     (if has_col (lit ''Status'') df \<and> has_col (lit ''Competitor'') df
      then (\<exists>cells. getitem df (lit ''Status'') = Inr cells \<and> \<not> str_accessor_ok cells) \<and>
           e = AttributeError
      else if has_col (lit ''Notes'') df then e = ValueError
      else \<not> has_col (lit ''Feature'') df \<and> e = KeyError (lit ''Feature''))"
proof (cases "has_col (lit ''Status'') df \<and> has_col (lit ''Competitor'') df")
  case True
  then obtain cells where cells: "getitem df (lit ''Status'') = Inr cells"
    by (auto simp: has_col_map_of getitem_Inr)
  from True cells have "load_dataset ul df = Inl e \<longleftrightarrow> \<not> str_accessor_ok cells \<and> e = AttributeError"
    by (auto simp: load_dataset_long)
  with True cells show ?thesis
    by auto
next
  case False
  show ?thesis
  proof (cases "melt df (lit ''Feature'') (lit ''Competitor'') (lit ''Notes'')")
    case (Inl e')
    with False have "load_dataset ul df = Inl e'"
      by (rule load_dataset_wide_fail)
    moreover from Inl have
      "if has_col (lit ''Notes'') df then e' = ValueError
       else \<not> has_col (lit ''Feature'') df \<and> e' = KeyError (lit ''Feature'')"
      by (simp only: melt_Inl)
    ultimately show ?thesis
      using False by (auto split: if_splits)
  next
    case (Inr long)
    from load_dataset_wide_ok [OF False Inr, of ul] obtain out where "load_dataset ul df = Inr out"
      by blast
    moreover have "\<not> has_col (lit ''Notes'') df \<and> has_col (lit ''Feature'') df"
      using melt_Inr [OF Inr] by (auto simp: getitem_Inr has_col_map_of)
    ultimately show ?thesis
      using False by auto
  qed
qed

text \<open>A wide-form table without a \<open>Feature\<close> column: the load fails with \<open>KeyError\<close>.\<close>

theorem load_dataset_failures_witness:
  "load_dataset latin1_lower [(lit ''Acme'', [PStr (lit ''ok'')])] = Inl (KeyError (lit ''Feature''))"
  using load_dataset_failures [of latin1_lower "[(lit ''Acme'', [PStr (lit ''ok'')])]" "KeyError (lit ''Feature'')"]
  by (simp add: has_col_def columns_def lit_def)

text \<open>
  C4, as stated, gives score 0 to a (feature, competitor) pair with no record. In the
  code \<open>fillna(0)\<close> is applied to the score column before pivoting, so it fills the
  score of a record whose Status is not a key of the table; the pivot of a pair that
  has no record stays NaN. In \<open>sparse_dataset\<close> the pairs (API, Acme) and
  (SSO, Globex) have no record, and both cells of the heatmap grid are NaN.
\<close>

theorem heatmap_missing_pair_counterexample:
  "fst (render_view 0 (Some [lit ''Acme'', lit ''Globex'']) (Some [lit ''SSO'', lit ''API''])
         (lit ''heatmap'') [sparse_dataset])
   = Inr (Graph [(lit ''API'', [(lit ''Acme'', PNaN), (lit ''Globex'', PInt 3)]),
                 (lit ''SSO'', [(lit ''Acme'', PInt 2), (lit ''Globex'', PNaN)])])"
  by (simp add: sparse_dataset_def view_eval)

text \<open>
  C4, amended. In the score grid for the heatmap, the cell of every selected
  (feature, competitor) pair that has a record is the Status of the pair's first record
  mapped through the fixed table yes: 3, partial: 2, no: 1, na: 0, with 0 for a Status
  that is none of the four; a Status of partial yields 2. The cell of a pair with no
  record in the dataset is missing (NaN).
\<close>

theorem heatmap_scores:
  assumes wf: "wf_df (st ! df)"
    and fcol: "getitem (st ! df) (lit ''Feature'') = Inr fcol"
    and ccol: "getitem (st ! df) (lit ''Competitor'') = Inr ccol"
    and scol: "getitem (st ! df) (lit ''Status'') = Inr scol"
    and sel: "cs \<noteq> []" "fs \<noteq> []"
    and mode: "mode \<noteq> lit ''table''"
  shows "fst (render_view df (Some cs) (Some fs) mode st) =
           Inr (Graph (map (\<lambda>f. (f, map (\<lambda>c. (c, spec_heat_cell (records (st ! df)) f c)) (sort cs)))
                  (sort fs))) \<and>
         spec_score (PStr (lit ''yes'')) = 3 \<and> spec_score (PStr (lit ''partial'')) = 2 \<and>
         spec_score (PStr (lit ''no'')) = 1 \<and> spec_score (PStr (lit ''na'')) = 0"
proof -
  have cell: "first_valid (map (\<lambda>r. PInt (spec_score (snd (snd r))))
            (pair_records (filter (\<lambda>r. (case fst (snd r) of PStr s \<Rightarrow> s \<in> set cs | _ \<Rightarrow> False) \<and>
                 (case fst r of PStr s \<Rightarrow> s \<in> set fs | _ \<Rightarrow> False)) (records (st ! df))) f c))
        = spec_heat_cell (records (st ! df)) f c"
    if "f \<in> set fs" and "c \<in> set cs" for f c
    using that by (simp add: pair_records_selected first_valid_scores spec_heat_cell_def)
  have "fst (render_view df (Some cs) (Some fs) mode st) =
      Inr (Graph (map (\<lambda>f. (f, map (\<lambda>c. (c, spec_heat_cell (records (st ! df)) f c)) (sort cs)))
                  (sort fs)))"
    unfolding render_view_heat [OF wf fcol ccol scol sel mode] reindex_def
    by (simp add: cell)
  then show ?thesis
    by (simp add: spec_score_def)
qed

text \<open>The pair (SSO, Acme) of \<open>sparse_dataset\<close> has Status partial: its cell is 2.\<close>

theorem heatmap_scores_witness:
  "wf_df sparse_dataset \<and>
   fst (render_view 0 (Some [lit ''Acme'']) (Some [lit ''SSO'']) (lit ''heatmap'') [sparse_dataset])
   = Inr (Graph [(lit ''SSO'', [(lit ''Acme'', PInt 2)])])"
proof -
  have wf: "wf_df ([sparse_dataset] ! 0)"
    by (simp add: sparse_dataset_def wf_df_def columns_def nrows_def)
  have f: "getitem ([sparse_dataset] ! 0) (lit ''Feature'') = Inr [PStr (lit ''SSO''), PStr (lit ''API'')]"
    and c: "getitem ([sparse_dataset] ! 0) (lit ''Competitor'') = Inr [PStr (lit ''Acme''), PStr (lit ''Globex'')]"
    and s: "getitem ([sparse_dataset] ! 0) (lit ''Status'') = Inr [PStr (lit ''partial''), PStr (lit ''yes'')]"
    by (simp_all add: sparse_dataset_def getitem_def)
  have m: "lit ''heatmap'' \<noteq> lit ''table''"
    by simp
  have cell: "spec_heat_cell (records ([sparse_dataset] ! 0)) (lit ''SSO'') (lit ''Acme'') = PInt 2"
    by (simp add: sparse_dataset_def records_def spec_heat_cell_def pair_records_def spec_score_def)
  from heatmap_scores [OF wf f c s _ _ m, of "[lit ''Acme'']" "[lit ''SSO'']"] cell wf
  show ?thesis
    by simp
qed

text \<open>
  C5, as stated, resolves a duplicated pair last-write-wins. The code pivots with
  \<open>aggfunc="first"\<close>. In \<open>duplicate_dataset\<close> the pair (SSO, Acme) has the records
  yes and then no: the table cell is yes and the score cell is 3, those of the first
  record, where the claim expects no and 1.
\<close>

theorem pivot_last_write_counterexample:
  "fst (render_view 0 (Some [lit ''Acme'']) (Some [lit ''SSO'']) (lit ''table'') [duplicate_dataset])
     = Inr (DataTable [lit ''Feature'', lit ''Acme'']
              [[(lit ''Feature'', PStr (lit ''SSO'')), (lit ''Acme'', PStr (lit ''yes''))]]) \<and>
   fst (render_view 0 (Some [lit ''Acme'']) (Some [lit ''SSO'']) (lit ''heatmap'') [duplicate_dataset])
     = Inr (Graph [(lit ''SSO'', [(lit ''Acme'', PInt 3)])])"
  by (simp add: duplicate_dataset_def view_eval)

text \<open>
  C5, amended. When the dataset contains duplicate (Feature, Competitor) pairs,
  pivoting resolves each duplicated pair first-write-wins. The table is made of one
  row per selected feature, in sorted order, and the row of a feature is built from
  the cells of the sorted competitors, where the cell of a pair is the first Status of
  the pair's records, in dataset order, that is not missing. The row shows under a
  selected competitor (one not itself named \<open>Feature\<close>) exactly that Status, and no
  entry when the pair has none. The cell of the score grid holds the score of the pair's
  first record.
\<close>

theorem pivot_first_wins:
  assumes wf: "wf_df (st ! df)"
    and fcol: "getitem (st ! df) (lit ''Feature'') = Inr fcol"
    and ccol: "getitem (st ! df) (lit ''Competitor'') = Inr ccol"
    and scol: "getitem (st ! df) (lit ''Status'') = Inr scol"
    and f: "f \<in> set fs" and c: "c \<in> set cs"
  shows "fst (render_view df (Some cs) (Some fs) (lit ''table'') st) =
           Inr (DataTable (lit ''Feature'' # sort cs)
                  (map (\<lambda>f. table_row
                          (f, map (\<lambda>c. (c, spec_table_cell (records (st ! df)) f c)) (sort cs)))
                     (sort fs))) \<and>
         (c \<noteq> lit ''Feature'' \<longrightarrow>
            map_of (table_row (f, map (\<lambda>c. (c, spec_table_cell (records (st ! df)) f c)) (sort cs))) c =
              (if is_null (spec_table_cell (records (st ! df)) f c) then None
               else Some (spec_table_cell (records (st ! df)) f c))) \<and>
         (\<exists>heat st'. render_view df (Some cs) (Some fs) (lit ''heatmap'') st =
            (Inr (Graph heat), st') \<and>
            grid_at heat f c = Some (spec_heat_cell (records (st ! df)) f c))"
proof -
  from f c have sel: "cs \<noteq> []" "fs \<noteq> []"
    by auto
  have mode: "lit ''heatmap'' \<noteq> lit ''table''"
    by simp
  from f c have fc: "f \<in> set (sort fs)" "c \<in> set (sort cs)"
    by simp_all
  have cell: "first_valid (map (\<lambda>r. snd (snd r))
            (pair_records (filter (\<lambda>r. (case fst (snd r) of PStr s \<Rightarrow> s \<in> set cs | _ \<Rightarrow> False) \<and>
                 (case fst r of PStr s \<Rightarrow> s \<in> set fs | _ \<Rightarrow> False)) (records (st ! df))) i k))
        = spec_table_cell (records (st ! df)) i k"
    if "i \<in> set fs" and "k \<in> set cs" for i k
    using that by (simp add: pair_records_selected first_valid_find spec_table_cell_def)
  have table: "fst (render_view df (Some cs) (Some fs) (lit ''table'') st) =
           Inr (DataTable (lit ''Feature'' # sort cs)
                  (map (\<lambda>f. table_row
                          (f, map (\<lambda>c. (c, spec_table_cell (records (st ! df)) f c)) (sort cs)))
                     (sort fs)))"
  proof -
    have row: "map (\<lambda>k. (k, first_valid (map (\<lambda>r. snd (snd r))
            (pair_records (filter (\<lambda>r. (case fst (snd r) of PStr s \<Rightarrow> s \<in> set cs | _ \<Rightarrow> False) \<and>
                 (case fst r of PStr s \<Rightarrow> s \<in> set fs | _ \<Rightarrow> False)) (records (st ! df))) i k))))
          (sort cs)
        = map (\<lambda>k. (k, spec_table_cell (records (st ! df)) i k)) (sort cs)"
      if "i \<in> set fs" for i
      using that by (intro map_cong refl) (simp add: cell)
    show ?thesis
      unfolding render_view_table [OF wf fcol ccol scol sel] reindex_def
      by (simp add: row)
  qed
  have shown: "c \<noteq> lit ''Feature'' \<longrightarrow>
            map_of (table_row (f, map (\<lambda>c. (c, spec_table_cell (records (st ! df)) f c)) (sort cs))) c =
              (if is_null (spec_table_cell (records (st ! df)) f c) then None
               else Some (spec_table_cell (records (st ! df)) f c))"
    using table_row_cell [OF fc(2), of f "\<lambda>c. spec_table_cell (records (st ! df)) f c"] by simp
  have "grid_at (reindex (\<lambda>i c. first_valid (map (\<lambda>r. PInt (spec_score (snd (snd r))))
            (pair_records (filter (\<lambda>r. (case fst (snd r) of PStr s \<Rightarrow> s \<in> set cs | _ \<Rightarrow> False) \<and>
                 (case fst r of PStr s \<Rightarrow> s \<in> set fs | _ \<Rightarrow> False)) (records (st ! df))) i c)))
          (sort fs) (sort cs)) f c = Some (spec_heat_cell (records (st ! df)) f c)"
    using f c by (simp add: grid_at_reindex [OF fc] pair_records_selected first_valid_scores
        spec_heat_cell_def)
  with render_view_heat [OF wf fcol ccol scol sel mode] have heat:
    "\<exists>heat st'. render_view df (Some cs) (Some fs) (lit ''heatmap'') st =
            (Inr (Graph heat), st') \<and>
            grid_at heat f c = Some (spec_heat_cell (records (st ! df)) f c)"
    by blast
  from table shown heat show ?thesis by blast
qed

text \<open>On \<open>duplicate_dataset\<close> the row and both cells of (SSO, Acme) are those of the first record.\<close>

theorem pivot_first_wins_witness:
  "wf_df duplicate_dataset \<and>
   fst (render_view 0 (Some [lit ''Acme'']) (Some [lit ''SSO'']) (lit ''table'') [duplicate_dataset])
     = Inr (DataTable [lit ''Feature'', lit ''Acme'']
              [table_row (lit ''SSO'', [(lit ''Acme'', PStr (lit ''yes''))])]) \<and>
   map_of (table_row (lit ''SSO'', [(lit ''Acme'', PStr (lit ''yes''))])) (lit ''Acme'')
     = Some (PStr (lit ''yes'')) \<and>
   (\<exists>heat st'. render_view 0 (Some [lit ''Acme'']) (Some [lit ''SSO'']) (lit ''heatmap'')
        [duplicate_dataset]
      = (Inr (Graph heat), st') \<and>
      grid_at heat (lit ''SSO'') (lit ''Acme'') = Some (PInt 3))"
proof -
  have wf: "wf_df ([duplicate_dataset] ! 0)"
    by (simp add: duplicate_dataset_def wf_df_def columns_def nrows_def)
  have f: "getitem ([duplicate_dataset] ! 0) (lit ''Feature'') = Inr [PStr (lit ''SSO''), PStr (lit ''SSO'')]"
    and c: "getitem ([duplicate_dataset] ! 0) (lit ''Competitor'') = Inr [PStr (lit ''Acme''), PStr (lit ''Acme'')]"
    and s: "getitem ([duplicate_dataset] ! 0) (lit ''Status'') = Inr [PStr (lit ''yes''), PStr (lit ''no'')]"
    by (simp_all add: duplicate_dataset_def getitem_def)
  have t: "spec_table_cell (records ([duplicate_dataset] ! 0)) (lit ''SSO'') (lit ''Acme'') = PStr (lit ''yes'')"
    by (simp add: duplicate_dataset_def records_def spec_table_cell_def pair_records_def is_null_def)
  have h: "spec_heat_cell (records ([duplicate_dataset] ! 0)) (lit ''SSO'') (lit ''Acme'') = PInt 3"
    by (simp add: duplicate_dataset_def records_def spec_heat_cell_def pair_records_def spec_score_def)
  have n: "\<not> is_null (PStr (lit ''yes''))" and k: "lit ''Acme'' \<noteq> lit ''Feature''"
    by (simp_all add: is_null_def)
  from pivot_first_wins [OF wf f c s, of "lit ''SSO''" "[lit ''SSO'']" "lit ''Acme''" "[lit ''Acme'']"]
    wf t h n k
  show ?thesis
    by simp
qed

text \<open>
  C6, as stated, holds for every wide-form table. A wide-form table with one feature
  row and two further columns, one of them named \<open>Notes\<close>, yields no record at all:
  \<open>melt\<close> is called with \<open>value_name="Notes"\<close> and refuses the table.
\<close>

theorem reshape_wide_counterexample:
  "load_dataset latin1_lower
     [(lit ''Feature'', [PStr (lit ''SSO'')]), (lit ''Acme'', [PStr (lit ''yes'')]),
      (lit ''Notes'', [PStr (lit ''GA since 2023'')])]
   = Inl ValueError"
  by (simp add: table_eval)

text \<open>
  C6, amended. Reshaping a wide-form table with F feature rows and C competitor
  columns, none of them named \<open>Notes\<close>, yields exactly F * C Comparison Records. Their
  (Feature, Competitor) pairs are the pairs of the input, every row under every
  competitor column, once each and column by column; when the feature labels are distinct
  no pair occurs twice. Each record's Status is one of yes, partial, no, na.
\<close>

theorem reshape_wide:
  assumes wf: "wf_df df"
    and wide: "\<not> (has_col (lit ''Status'') df \<and> has_col (lit ''Competitor'') df)"
    and feat: "getitem df (lit ''Feature'') = Inr feats"
    and nonotes: "\<not> has_col (lit ''Notes'') df"
  shows "case load_dataset ul df of
           Inl e \<Rightarrow> False
         | Inr out \<Rightarrow>
             length (records out) = length feats * length (competitor_columns df) \<and>
             map (\<lambda>(f, c, s). (f, c)) (records out) =
               concat (map (\<lambda>n. map (\<lambda>f. (f, PStr n)) feats) (competitor_columns df)) \<and>
             (distinct feats \<longrightarrow> distinct (map (\<lambda>(f, c, s). (f, c)) (records out))) \<and>
             (\<forall>r \<in> set (records out). snd (snd r) \<in> PStr ` status_words)"
proof -
  let ?vals = "filter (\<lambda>c. fst c \<noteq> lit ''Feature'') df"
  let ?F = "concat (replicate (length ?vals) feats)"
  let ?C = "concat (map (\<lambda>c. replicate (nrows df) (PStr (fst c))) ?vals)"
  let ?N = "concat (map snd ?vals)"
  let ?S = "map (\<lambda>n. PStr (to_status ul n)) ?N"
  have melt: "melt df (lit ''Feature'') (lit ''Competitor'') (lit ''Notes'') =
      Inr [(lit ''Feature'', ?F), (lit ''Competitor'', ?C), (lit ''Notes'', ?N)]"
    using feat nonotes by (simp add: melt_def Let_def)
  from load_dataset_wide_ok [OF wide melt, of ul]
  have out: "load_dataset ul df =
      Inr [(lit ''Feature'', ?F), (lit ''Competitor'', ?C), (lit ''Notes'', ?N), (lit ''Status'', ?S)]"
    by simp
  from wf feat have nfeats: "length feats = nrows df"
    by (simp add: getitem_Inr wf_df_length)
  have names: "map fst ?vals = competitor_columns df"
    by (simp add: competitor_columns_def columns_def filter_map comp_def)
  have lenF: "length ?F = length ?vals * length feats"
    by (simp add: length_concat sum_list_replicate)
  have colen: "\<forall>c \<in> set ?vals. length (snd c) = length feats"
    using wf nfeats by (auto simp: wf_df_def)
  then have lenN: "length ?N = length ?vals * length feats"
    by (rule length_concat_cols)
  have zipFC: "zip ?F ?C = concat (map (\<lambda>c. map (\<lambda>i. (i, PStr (fst c))) feats) ?vals)"
    using zip_tile_repeat [of ?vals feats "\<lambda>c. PStr (fst c)"] nfeats by simp
  then have zipFC': "zip ?F ?C = concat (map (\<lambda>n. map (\<lambda>f. (f, PStr n)) feats) (competitor_columns df))"
    by (simp add: names [symmetric] comp_def)
  have lenC: "length ?C = length ?vals * length feats"
    by (simp add: length_concat comp_def sum_list_triv nfeats)
  have recs: "records [(lit ''Feature'', ?F), (lit ''Competitor'', ?C), (lit ''Notes'', ?N), (lit ''Status'', ?S)]
      = zip ?F (zip ?C ?S)"
    by (rule records_wide)
  have lenrec: "length (zip ?F (zip ?C ?S)) = length feats * length (competitor_columns df)"
  proof -
    have "length (competitor_columns df) = length ?vals"
      unfolding names [symmetric] by simp
    with lenF lenC lenN show ?thesis by simp
  qed
  have pairs: "map (\<lambda>(f, c, s). (f, c)) (zip ?F (zip ?C ?S)) = zip ?F ?C"
    by (rule map_fst_zip3) (simp_all add: lenF lenC lenN)
  have dist: "distinct feats \<longrightarrow> distinct (zip ?F ?C)"
  proof
    assume "distinct feats"
    moreover have "distinct (competitor_columns df)"
      using wf by (simp add: competitor_columns_def wf_df_def)
    ultimately show "distinct (zip ?F ?C)"
      unfolding zipFC' by (rule distinct_pairs)
  qed
  have stat: "\<forall>r \<in> set (zip ?F (zip ?C ?S)). snd (snd r) \<in> PStr ` status_words"
  proof
    fix r assume "r \<in> set (zip ?F (zip ?C ?S))"
    then have "snd (snd r) \<in> set ?S"
      by (rule zip3_third)
    then obtain n where "snd (snd r) = PStr (to_status ul n)"
      by auto
    then show "snd (snd r) \<in> PStr ` status_words"
      by (simp add: to_status_word)
  qed
  let ?out = "[(lit ''Feature'', ?F), (lit ''Competitor'', ?C), (lit ''Notes'', ?N), (lit ''Status'', ?S)]"
  have r1: "length (records ?out) = length feats * length (competitor_columns df)"
    unfolding recs by (rule lenrec)
  have r2: "map (\<lambda>(f, c, s). (f, c)) (records ?out) =
      concat (map (\<lambda>n. map (\<lambda>f. (f, PStr n)) feats) (competitor_columns df))"
    unfolding recs pairs by (rule zipFC')
  have r3: "distinct feats \<longrightarrow> distinct (map (\<lambda>(f, c, s). (f, c)) (records ?out))"
    unfolding recs pairs by (rule dist)
  have r4: "\<forall>r \<in> set (records ?out). snd (snd r) \<in> PStr ` status_words"
    unfolding recs by (rule stat)
  from r1 r2 r3 r4 show ?thesis
    unfolding out by (simp only: sum.case simp_thms)
qed

text \<open>A table with two features and two competitors: four records.\<close>

theorem reshape_wide_witness:
  "wf_df wide_example \<and>
   \<not> has_col (lit ''Status'') wide_example \<and>
   \<not> has_col (lit ''Notes'') wide_example \<and>
   getitem wide_example (lit ''Feature'') = Inr [PStr (lit ''SSO''), PStr (lit ''API'')] \<and>
   competitor_columns wide_example = [lit ''Acme'', lit ''Globex''] \<and>
   load_dataset latin1_lower wide_example = Inr wide_example_loaded \<and>
   length (records wide_example_loaded) = 2 * 2 \<and>
   distinct (map (\<lambda>(f, c, s). (f, c)) (records wide_example_loaded))"
proof -
  have wf: "wf_df wide_example"
    by (simp add: wide_example_def wf_df_def columns_def nrows_def)
  have st: "\<not> has_col (lit ''Status'') wide_example"
    by (simp add: wide_example_def has_col_def columns_def)
  then have wide: "\<not> (has_col (lit ''Status'') wide_example \<and> has_col (lit ''Competitor'') wide_example)"
    by simp
  have feat: "getitem wide_example (lit ''Feature'') = Inr [PStr (lit ''SSO''), PStr (lit ''API'')]"
    by (simp add: wide_example_def getitem_def)
  have nonotes: "\<not> has_col (lit ''Notes'') wide_example"
    by (simp add: wide_example_def has_col_def columns_def)
  have out: "load_dataset latin1_lower wide_example = Inr wide_example_loaded"
    by (simp add: wide_example_def wide_example_loaded_def table_eval to_status_def text_eval)
  have cc: "competitor_columns wide_example = [lit ''Acme'', lit ''Globex'']"
    by (simp add: wide_example_def competitor_columns_def columns_def)
  have d: "distinct [PStr (lit ''SSO''), PStr (lit ''API'')]"
    by simp
  from reshape_wide [OF wf wide feat nonotes, of latin1_lower]
  have "length (records wide_example_loaded) = 2 * 2 \<and>
        distinct (map (\<lambda>(f, c, s). (f, c)) (records wide_example_loaded))"
    unfolding out cc using d by simp
  with wf st nonotes feat cc out show ?thesis
    by (simp only: simp_thms)
qed

text \<open>
  C7. If the selected competitors or the selected features are empty (no list at all,
  or the empty list), the view is the prompt to select at least one competitor and one
  feature, for every dataset and every view mode, and the store is as it was: no
  filtered copy has been made and nothing was pivoted.
\<close>

theorem render_view_prompt:
  assumes "competitors = None \<or> competitors = Some [] \<or> features = None \<or> features = Some []"
  shows "render_view df competitors features mode st = (Inr (Div please_select), st)"
  using assms by (auto simp: render_view_def selected_def)

text \<open>An empty competitor selection with a feature selected gives the prompt.\<close>

theorem render_view_prompt_witness:
  "render_view 0 (Some []) (Some [lit ''SSO'']) (lit ''table'')
     [[(lit ''Feature'', [PStr (lit ''SSO'')]), (lit ''Competitor'', [PStr (lit ''Acme'')]),
       (lit ''Status'', [PStr (lit ''yes'')])]]
   = (Inr (Div please_select),
     [[(lit ''Feature'', [PStr (lit ''SSO'')]), (lit ''Competitor'', [PStr (lit ''Acme'')]),
       (lit ''Status'', [PStr (lit ''yes'')])]])"
  by (rule render_view_prompt) simp

text \<open>
  C8. For every long-form dataset (it has a \<open>Status\<close> and a \<open>Competitor\<close> column) whose
  Status values are text that is already lower-case and trimmed, the long-form
  normalisation succeeds and returns the dataset unchanged.
\<close>

theorem long_form_noop:
  assumes comp: "has_col (lit ''Competitor'') df"
    and status: "getitem df (lit ''Status'') = Inr cells"
    and norm: "\<forall>v \<in> set cells. normalized_text ul v"
  shows "load_dataset ul df = Inr df"
proof -
  from status have has: "has_col (lit ''Status'') df"
    by (simp add: getitem_Inr has_col_map_of)
  from norm have ok: "str_accessor_ok cells"
    by (cases cells) (auto simp: str_accessor_ok_def dest: normalized_text_is_text)
  from norm have same: "map (str_apply py_strip) (map (str_apply (py_lower ul)) cells) = cells"
    by (induction cells) (simp_all add: normalized_text_apply)
  from status have "setitem df (lit ''Status'') cells = df"
    by (simp add: getitem_Inr setitem_same)
  with load_dataset_long [OF has comp status, of ul] ok same show ?thesis
    by simp
qed

text \<open>A long-form dataset with the statuses \<open>yes\<close> and \<open>n/a\<close>.\<close>

theorem long_form_noop_witness:
  "has_col (lit ''Competitor'') long_example \<and>
   getitem long_example (lit ''Status'') = Inr [PStr (lit ''yes''), PStr (lit ''n/a'')] \<and>
   normalized_text latin1_lower (PStr (lit ''yes'')) \<and>
   normalized_text latin1_lower (PStr (lit ''n/a'')) \<and>
   load_dataset latin1_lower long_example = Inr long_example"
proof -
  have c: "has_col (lit ''Competitor'') long_example"
    by (simp add: long_example_def has_col_def columns_def)
  have s: "getitem long_example (lit ''Status'') = Inr [PStr (lit ''yes''), PStr (lit ''n/a'')]"
    by (simp add: long_example_def getitem_def)
  have n: "\<forall>v \<in> set [PStr (lit ''yes''), PStr (lit ''n/a'')]. normalized_text latin1_lower v"
    by (simp add: normalized_text_def trimmed_def is_space_def text_eval)
  from long_form_noop [OF c s n] c s n show ?thesis
    by simp
qed

text \<open>
  C9. Rendering a view never changes the base dataset. For every selection and every
  view mode, whatever the callback returns, every table that was in the store before
  the call is the same afterwards; in particular the module-level dataset at its address
  is identical, and so are its records and its number of rows. The callback only adds
  the filtered copy, and the score column is assigned to that copy.
\<close>

theorem render_view_frame:
  assumes "df < length st"
  shows "take (length st) (snd (render_view df competitors features mode st)) = st \<and>
         snd (render_view df competitors features mode st) ! df = st ! df \<and>
         records (snd (render_view df competitors features mode st) ! df) = records (st ! df) \<and>
         nrows (snd (render_view df competitors features mode st) ! df) = nrows (st ! df)"
proof -
  have t: "take (length st) (snd (render_view df competitors features mode st)) = st"
    by (simp add: render_view_def Let_def split: sum.splits)
  have "snd (render_view df competitors features mode st) ! df =
        take (length st) (snd (render_view df competitors features mode st)) ! df"
    using assms by simp
  with t have "snd (render_view df competitors features mode st) ! df = st ! df"
    by simp
  with t show ?thesis by simp
qed

text \<open>
  A heatmap of \<open>sparse_dataset\<close>: the store holds a second table afterwards, and the
  dataset is the same.
\<close>

theorem render_view_frame_witness:
  "take 1 (snd (render_view 0 (Some [lit ''Acme'']) (Some [lit ''SSO'']) (lit ''heatmap'')
      [sparse_dataset])) = [sparse_dataset] \<and>
   snd (render_view 0 (Some [lit ''Acme'']) (Some [lit ''SSO'']) (lit ''heatmap'')
      [sparse_dataset]) ! 0 = sparse_dataset \<and>
   length (snd (render_view 0 (Some [lit ''Acme'']) (Some [lit ''SSO'']) (lit ''heatmap'')
      [sparse_dataset])) = 2"
proof -
  have l: "(0::nat) < length [sparse_dataset]"
    by simp
  have n: "length (snd (render_view 0 (Some [lit ''Acme'']) (Some [lit ''SSO'']) (lit ''heatmap'')
      [sparse_dataset])) = 2"
    by (simp add: sparse_dataset_def view_eval)
  from render_view_frame [OF l, of "Some [lit ''Acme'']" "Some [lit ''SSO'']" "lit ''heatmap''"] n
  show ?thesis
    by simp
qed

text \<open>
  C10. \<open>to_status\<close> is defined on every cell value and has no raising branch; its result
  is always one of the four status words. A value that is not text is matched through
  its \<open>str\<close>: the result is that of the text \<open>str\<close> gives. For the NaN of an empty CSV
  cell that text is \<open>nan\<close>, which is not empty (so the \<open>or ""\<close> alternative is not
  taken) and is classified \<open>yes\<close>; \<open>None\<close> becomes \<open>None\<close> and is classified \<open>yes\<close> too.
\<close>

theorem to_status_total:
  "to_status ul v \<in> {lit ''yes'', lit ''partial'', lit ''no'', lit ''na''} \<and>
   to_status ul v = to_status ul (PStr (py_str v)) \<and>
   py_str PNaN = lit ''nan'' \<and>
   py_or (py_str PNaN) (lit '''') = lit ''nan'' \<and>
   lit ''nan'' \<noteq> lit '''' \<and>
   to_status ul PNaN = lit ''yes'' \<and>
   to_status ul PNone = lit ''yes''"
proof -
  have four: "to_status ul v \<in> {lit ''yes'', lit ''partial'', lit ''no'', lit ''na''}"
    by (simp add: to_status_def Let_def)
  have coerce: "to_status ul v = to_status ul (PStr (py_str v))"
    by (simp add: to_status_def)
  have nan: "to_status ul PNaN = lit ''yes''"
    by (simp add: to_status_def text_eval)
  have none: "to_status ul PNone = lit ''yes''"
    by (simp add: to_status_def text_eval)
  have "lit ''nan'' \<noteq> lit ''''"
    by (simp add: lit_def)
  with four coerce nan none show ?thesis
    by simp
qed

theorem to_status_total_witness:
  "to_status latin1_lower (PInt (- 12)) \<in> {lit ''yes'', lit ''partial'', lit ''no'', lit ''na''} \<and>
   to_status latin1_lower (PInt (- 12)) = to_status latin1_lower (PStr (lit ''-12''))"
proof -
  have s: "py_str (PInt (- 12)) = lit ''-12''"
    by (simp add: lit_def dec_digits.simps)
  from to_status_total [of latin1_lower "PInt (- 12)", unfolded s] show ?thesis
    by blast
qed

end
